theory Spec2Isabelle
  imports Complex_Main "HOL-Library.Word" "HOL-Library.Monad_Syntax"
begin

section \<open>The DTLZ problem suite of pagmo (include/pagmo/problems/dtlz.hpp)\<close>

text \<open>
  The class \<^verbatim>\<open>pagmo::dtlz\<close> is embedded function by function.  Conventions:
  \<^item> \<^verbatim>\<open>double\<close> is idealised as \<^typ>\<open>real\<close>: no rounding.  IEEE division never traps; where
    the divisor is zero the C++ value is an infinity or a NaN, which the reals do not have.
    Inside the kernels a division is HOL's total division, and what is proved of them is
    stated where the divisor is not zero or relative to the value of \<open>g\<close>.  The division of
    the population metric by \<^verbatim>\<open>pop.size()\<close> is partial: by the size 0 it has no value.
  \<^item> \<^verbatim>\<open>unsigned int\<close> is a 32-bit word and \<^verbatim>\<open>vector_double::size_type\<close>
    (\<^verbatim>\<open>std::size_t\<close>) a 64-bit word.  Index arithmetic inside the kernels is done on
    \<^typ>\<open>nat\<close> with the unsigned wrap-around of a subtraction written out.
  \<^item> \<^verbatim>\<open>operator[]\<close> of a vector is unchecked: a read or write out of range is undefined
    behaviour, the value \<open>None\<close> of the model.  \<open>None\<close> is also the quotient by the size 0:
    in both cases the code yields no real number.
  \<^item> \<^verbatim>\<open>pagmo_throw(std::invalid_argument, ...)\<close> is the value \<open>Inl InvalidArgument\<close>.
\<close>

subsection \<open>Data model\<close>

text \<open>\<^verbatim>\<open>unsigned int\<close>, 32 bits wide.\<close>

type_synonym uint = "32 word"

text \<open>
  Modelled from the spec: types.hpp, which declares \<^verbatim>\<open>vector_double\<close>, is not among the
  sources.  A decision or objective vector is the spec's ordered sequence of real numbers
  (\<^verbatim>\<open>std::vector<double>\<close>), and its \<^verbatim>\<open>size_type\<close>, the spec's index type, is taken
  as the 64-bit \<^verbatim>\<open>std::size_t\<close>.
\<close>

type_synonym size_type = "64 word"
type_synonym vector_double = "real list"

text \<open>
  Modelled from the spec: population.hpp is not among the sources.  A population is the spec's
  collection of decision vectors: the vector \<^verbatim>\<open>pop.get_x()\<close>, whose length is
  \<^verbatim>\<open>pop.size()\<close>.
\<close>

type_synonym population = "vector_double list"

datatype error = InvalidArgument

record dtlz =
  m_prob_id :: uint
  m_alpha :: uint
  m_dim :: size_type
  m_fdim :: size_type

text \<open>\<^verbatim>\<open>std::numeric_limits<size_type>::max()\<close>, the spec's index-type maximum.\<close>

definition size_type_max :: size_type where
  "size_type_max = - 1"

text \<open>
  Modelled from the spec: constants.hpp is not among the sources.  Its \<^verbatim>\<open>detail::pi()\<close> is
  the spec's \<open>\<pi>\<close>, the constant \<^term>\<open>pi\<close>, and \<^verbatim>\<open>detail::pi_half()\<close> the spec's
  \<open>\<pi>/2\<close>.
\<close>

definition pi_half :: real where
  "pi_half = pi / 2"

subsection \<open>Vectors, unsigned subtraction and for-loops\<close>

definition vec_get :: "'a list \<Rightarrow> nat \<Rightarrow> 'a option" where
  "vec_get v i = (if i < length v then Some (v ! i) else None)"

definition vec_set :: "'a list \<Rightarrow> nat \<Rightarrow> 'a \<Rightarrow> 'a list option" where
  "vec_set v i a = (if i < length v then Some (v[i := a]) else None)"

text \<open>\<open>a - b\<close> on \<^verbatim>\<open>size_type\<close>, for operands below \<open>2 ^ 64\<close>: it wraps when \<open>a < b\<close>.\<close>

definition size_sub :: "nat \<Rightarrow> nat \<Rightarrow> nat" where
  "size_sub a b = (a + 2 ^ 64 - b) mod 2 ^ 64"

text \<open>
  \<^verbatim>\<open>for (i = a; i < n; ++i) body\<close>, the loop variable counting up by one and the body
  updating a state, or running into undefined behaviour.
\<close>

function for_loop :: "nat \<Rightarrow> nat \<Rightarrow> (nat \<Rightarrow> 's \<Rightarrow> 's option) \<Rightarrow> 's \<Rightarrow> 's option" where
  "for_loop i n body s =
     (if i < n then (case body i s of None \<Rightarrow> None | Some s' \<Rightarrow> for_loop (Suc i) n body s')
      else Some s)"
  by pat_completeness auto
termination
  by (relation "measure (\<lambda>(i, n, body, s). n - i)") auto

declare for_loop.simps [simp del]

subsection \<open>Constructor\<close>

definition dtlz_new :: "uint \<Rightarrow> size_type \<Rightarrow> size_type \<Rightarrow> uint \<Rightarrow> error + dtlz" where
  "dtlz_new prob_id dim' fdim alpha =
     (if prob_id = 0 \<or> prob_id > 7 then Inl InvalidArgument
      else if fdim < 2 then Inl InvalidArgument
      else if fdim > size_type_max div 3 then Inl InvalidArgument
      else if dim' > size_type_max div 3 then Inl InvalidArgument
      else if dim' \<le> fdim then Inl InvalidArgument
      else Inr \<lparr>m_prob_id = prob_id, m_alpha = alpha, m_dim = dim', m_fdim = fdim\<rparr>)"

subsection \<open>The distance functions g\<close>

definition g13_func :: "vector_double \<Rightarrow> real option" where
  "g13_func x = do {
     y \<leftarrow> for_loop 0 (length x)
       (\<lambda>i y. do { xi \<leftarrow> vec_get x i; Some (y + ((xi - 0.5) ^ 2 - cos (20 * pi * (xi - 0.5)))) }) 0;
     Some (100 * (y + real (length x)))
   }"

definition g245_func :: "vector_double \<Rightarrow> real option" where
  "g245_func x =
     for_loop 0 (length x) (\<lambda>i y. do { xi \<leftarrow> vec_get x i; Some (y + (xi - 0.5) ^ 2) }) 0"

definition g6_func :: "vector_double \<Rightarrow> real option" where
  "g6_func x =
     for_loop 0 (length x) (\<lambda>i y. do { xi \<leftarrow> vec_get x i; Some (y + xi powr 0.1) }) 0"

definition g7_func :: "vector_double \<Rightarrow> real option" where
  "g7_func x = do {
     y \<leftarrow> for_loop 0 (length x) (\<lambda>i y. do { xi \<leftarrow> vec_get x i; Some (y + xi) }) 0;
     Some ((9 / real (length x)) * y)
   }"

text \<open>The switch of \<^verbatim>\<open>g_func\<close>, cases in the order of the source; \<open>- 1\<close> when none matches.\<close>

definition g_func :: "dtlz \<Rightarrow> vector_double \<Rightarrow> real option" where
  "g_func cfg x =
     (if m_prob_id cfg = 6 then g6_func x
      else if m_prob_id cfg = 7 then g7_func x
      else if m_prob_id cfg = 1 \<or> m_prob_id cfg = 3 then g13_func x
      else if m_prob_id cfg = 2 \<or> m_prob_id cfg = 4 \<or> m_prob_id cfg = 5 then g245_func x
      else Some (- 1))"

subsection \<open>The distribution function h of DTLZ7\<close>

definition h7_func :: "dtlz \<Rightarrow> vector_double \<Rightarrow> real \<Rightarrow> real option" where
  "h7_func cfg f g = do {
     y \<leftarrow> for_loop 0 (size_sub (length f) 1)
       (\<lambda>i y. do { fi \<leftarrow> vec_get f i; Some (y + (fi / (1 + g)) * (1 + sin (3 * pi * fi))) }) 0;
     Some (real (unat (m_fdim cfg)) - y)
   }"

subsection \<open>The objective functions\<close>

text \<open>
  Every kernel starts with the same loop, collecting \<open>x[f.size() - 1], ..., x[x.size() - 1]\<close>
  into \<open>x_M\<close> by \<^verbatim>\<open>push_back\<close>; \<open>n\<close> is \<open>f.size()\<close>.
\<close>

definition collect_x_M :: "nat \<Rightarrow> vector_double \<Rightarrow> vector_double option" where
  "collect_x_M n x =
     for_loop (size_sub n 1) (length x) (\<lambda>i x_M. do { xi \<leftarrow> vec_get x i; Some (x_M @ [xi]) }) []"

definition f1_objfun_impl :: "dtlz \<Rightarrow> vector_double \<Rightarrow> vector_double option" where
  "f1_objfun_impl cfg x = do {
     let f = replicate (unat (m_fdim cfg)) 0;
     x_M \<leftarrow> collect_x_M (length f) x;
     g \<leftarrow> g_func cfg x_M;
     f \<leftarrow> vec_set f 0 (0.5 * (1 + g));
     f \<leftarrow> for_loop 0 (size_sub (length f) 1)
       (\<lambda>i f. do { f0 \<leftarrow> vec_get f 0; xi \<leftarrow> vec_get x i; vec_set f 0 (f0 * xi) }) f;
     f \<leftarrow> for_loop 1 (size_sub (length f) 1)
       (\<lambda>i f. do {
          f \<leftarrow> vec_set f i (0.5 * (1 + g));
          f \<leftarrow> for_loop 0 (size_sub (length f) (i + 1))
            (\<lambda>j f. do { fi \<leftarrow> vec_get f i; xj \<leftarrow> vec_get x j; vec_set f i (fi * xj) }) f;
          fi \<leftarrow> vec_get f i;
          xk \<leftarrow> vec_get x (size_sub (length f) (i + 1));
          vec_set f i (fi * (1 - xk))
        }) f;
     x0 \<leftarrow> vec_get x 0;
     vec_set f (size_sub (length f) 1) (0.5 * (1 - x0) * (1 + g))
   }"

definition f23_objfun_impl :: "dtlz \<Rightarrow> vector_double \<Rightarrow> vector_double option" where
  "f23_objfun_impl cfg x = do {
     let f = replicate (unat (m_fdim cfg)) 0;
     x_M \<leftarrow> collect_x_M (length f) x;
     g \<leftarrow> g_func cfg x_M;
     f \<leftarrow> vec_set f 0 (1 + g);
     f \<leftarrow> for_loop 0 (size_sub (length f) 1)
       (\<lambda>i f. do { f0 \<leftarrow> vec_get f 0; xi \<leftarrow> vec_get x i; vec_set f 0 (f0 * cos (xi * pi_half)) }) f;
     f \<leftarrow> for_loop 1 (size_sub (length f) 1)
       (\<lambda>i f. do {
          f \<leftarrow> vec_set f i (1 + g);
          f \<leftarrow> for_loop 0 (size_sub (length f) (i + 1))
            (\<lambda>j f. do { fi \<leftarrow> vec_get f i; xj \<leftarrow> vec_get x j;
                        vec_set f i (fi * cos (xj * pi_half)) }) f;
          fi \<leftarrow> vec_get f i;
          xk \<leftarrow> vec_get x (size_sub (length f) (i + 1));
          vec_set f i (fi * sin (xk * pi_half))
        }) f;
     x0 \<leftarrow> vec_get x 0;
     vec_set f (size_sub (length f) 1) ((1 + g) * sin (x0 * pi_half))
   }"

definition f4_objfun_impl :: "dtlz \<Rightarrow> vector_double \<Rightarrow> vector_double option" where
  "f4_objfun_impl cfg x = do {
     let f = replicate (unat (m_fdim cfg)) 0;
     let alpha = unat (m_alpha cfg);
     x_M \<leftarrow> collect_x_M (length f) x;
     g \<leftarrow> g_func cfg x_M;
     f \<leftarrow> vec_set f 0 (1 + g);
     f \<leftarrow> for_loop 0 (size_sub (length f) 1)
       (\<lambda>i f. do { f0 \<leftarrow> vec_get f 0; xi \<leftarrow> vec_get x i;
                   vec_set f 0 (f0 * cos (xi ^ alpha * pi_half)) }) f;
     f \<leftarrow> for_loop 1 (size_sub (length f) 1)
       (\<lambda>i f. do {
          f \<leftarrow> vec_set f i (1 + g);
          f \<leftarrow> for_loop 0 (size_sub (length f) (i + 1))
            (\<lambda>j f. do { fi \<leftarrow> vec_get f i; xj \<leftarrow> vec_get x j;
                        vec_set f i (fi * cos (xj ^ alpha * pi_half)) }) f;
          fi \<leftarrow> vec_get f i;
          xk \<leftarrow> vec_get x (size_sub (length f) (i + 1));
          vec_set f i (fi * sin (xk ^ alpha * pi_half))
        }) f;
     x0 \<leftarrow> vec_get x 0;
     vec_set f (size_sub (length f) 1) ((1 + g) * sin (x0 ^ alpha * pi_half))
   }"

definition f56_objfun_impl :: "dtlz \<Rightarrow> vector_double \<Rightarrow> vector_double option" where
  "f56_objfun_impl cfg x = do {
     let f = replicate (unat (m_fdim cfg)) 0;
     x_M \<leftarrow> collect_x_M (length f) x;
     g \<leftarrow> g_func cfg x_M;
     let theta = replicate (length f) 0;
     x0 \<leftarrow> vec_get x 0;
     theta \<leftarrow> vec_set theta 0 x0;
     let t = 1 / (2 * (1 + g));
     theta \<leftarrow> for_loop 1 (length f)
       (\<lambda>i theta. do { xi \<leftarrow> vec_get x i; vec_set theta i (t + ((g * xi) / (1 + g))) }) theta;
     f \<leftarrow> vec_set f 0 (1 + g);
     f \<leftarrow> for_loop 0 (size_sub (length f) 1)
       (\<lambda>i f. do { f0 \<leftarrow> vec_get f 0; ti \<leftarrow> vec_get theta i;
                   vec_set f 0 (f0 * cos (ti * pi_half)) }) f;
     f \<leftarrow> for_loop 1 (size_sub (length f) 1)
       (\<lambda>i f. do {
          f \<leftarrow> vec_set f i (1 + g);
          f \<leftarrow> for_loop 0 (size_sub (length f) (i + 1))
            (\<lambda>j f. do { fi \<leftarrow> vec_get f i; tj \<leftarrow> vec_get theta j;
                        vec_set f i (fi * cos (tj * pi_half)) }) f;
          fi \<leftarrow> vec_get f i;
          tk \<leftarrow> vec_get theta (size_sub (length f) (i + 1));
          vec_set f i (fi * sin (tk * pi_half))
        }) f;
     t0 \<leftarrow> vec_get theta 0;
     vec_set f (size_sub (length f) 1) ((1 + g) * sin (t0 * pi_half))
   }"

definition f7_objfun_impl :: "dtlz \<Rightarrow> vector_double \<Rightarrow> vector_double option" where
  "f7_objfun_impl cfg x = do {
     let f = replicate (unat (m_fdim cfg)) 0;
     x_M \<leftarrow> collect_x_M (length f) x;
     g0 \<leftarrow> g_func cfg x_M;
     let g = 1 + g0;
     f \<leftarrow> for_loop 0 (size_sub (length f) 1)
       (\<lambda>i f. do { xi \<leftarrow> vec_get x i; vec_set f i xi }) f;
     h \<leftarrow> h7_func cfg f g;
     vec_set f (size_sub (length f) 1) ((1 + g) * h)
   }"

subsection \<open>Fitness and the convergence metric\<close>

text \<open>The switch of \<^verbatim>\<open>fitness\<close>: \<open>retval\<close> stays the empty vector when no case matches.\<close>

definition fitness :: "dtlz \<Rightarrow> vector_double \<Rightarrow> vector_double option" where
  "fitness cfg x =
     (if m_prob_id cfg = 1 then f1_objfun_impl cfg x
      else if m_prob_id cfg = 2 \<or> m_prob_id cfg = 3 then f23_objfun_impl cfg x
      else if m_prob_id cfg = 4 then f4_objfun_impl cfg x
      else if m_prob_id cfg = 5 \<or> m_prob_id cfg = 6 then f56_objfun_impl cfg x
      else if m_prob_id cfg = 7 then f7_objfun_impl cfg x
      else Some [])"

definition convergence_metric :: "dtlz \<Rightarrow> vector_double \<Rightarrow> real option" where
  "convergence_metric cfg x = do {
     x_M \<leftarrow> collect_x_M (unat (m_fdim cfg)) x;
     g \<leftarrow> g_func cfg x_M;
     Some (0 + g)
   }"

text \<open>\<^verbatim>\<open>p_distance(const vector_double &)\<close>: the checked entry point.\<close>

definition p_distance :: "dtlz \<Rightarrow> vector_double \<Rightarrow> error + real option" where
  "p_distance cfg x =
     (if length x \<noteq> unat (m_dim cfg) then Inl InvalidArgument
      else Inr (convergence_metric cfg x))"

text \<open>
  The quotient \<^verbatim>\<open>c / pop.size()\<close> of a \<^verbatim>\<open>double\<close> by a size.  By the size 0 it is no real
  number (\<open>0.0 / 0\<close> is an IEEE NaN, any other \<open>c / 0\<close> an infinity), and nothing is thrown.
\<close>

definition div_size :: "real \<Rightarrow> nat \<Rightarrow> real option" where
  "div_size c n = (if n = 0 then None else Some (c / real n))"

text \<open>
  \<^verbatim>\<open>p_distance(const pagmo::population &)\<close>: the loop adding up the metric of the members
  (it stops at the first member whose metric throws), then the division by \<^verbatim>\<open>pop.size()\<close>.
\<close>

function p_distance_loop :: "dtlz \<Rightarrow> population \<Rightarrow> nat \<Rightarrow> real \<Rightarrow> error + real option" where
  "p_distance_loop cfg pop i c =
     (if i < length pop then
        (case vec_get pop i of
           None \<Rightarrow> Inr None
         | Some x \<Rightarrow>
             (case p_distance cfg x of
                Inl e \<Rightarrow> Inl e
              | Inr None \<Rightarrow> Inr None
              | Inr (Some d) \<Rightarrow> p_distance_loop cfg pop (Suc i) (c + d)))
      else Inr (Some c))"
  by pat_completeness auto
termination
  by (relation "measure (\<lambda>(cfg, pop, i, c). length pop - i)") auto

declare p_distance_loop.simps [simp del]

definition p_distance_pop :: "dtlz \<Rightarrow> population \<Rightarrow> error + real option" where
  "p_distance_pop cfg pop =
     (case p_distance_loop cfg pop 0 0 of
        Inl e \<Rightarrow> Inl e
      | Inr None \<Rightarrow> Inr None
      | Inr (Some c) \<Rightarrow> Inr (div_size c (length pop)))"

section \<open>Loops, wrap-around and the distance kernels in closed form\<close>

lemma for_loop_step:
  "i < n \<Longrightarrow> for_loop i n body s =
     (case body i s of None \<Rightarrow> None | Some s' \<Rightarrow> for_loop (Suc i) n body s')"
  by (subst for_loop.simps) simp

lemma for_loop_done: "n \<le> i \<Longrightarrow> for_loop i n body s = Some s"
  by (subst for_loop.simps) simp

text \<open>A loop that only reads \<open>x[i]\<close> below \<open>x.size()\<close> and adds a term to an accumulator.\<close>

lemma for_loop_sum:
  "for_loop i (length x) (\<lambda>i y. Option.bind (vec_get x i) (\<lambda>xi. Some (y + F xi))) y
     = Some (y + sum_list (map F (drop i x)))"
proof (induction "length x - i" arbitrary: i y)
  case 0
  then show ?case by (simp add: for_loop_done)
next
  case (Suc k)
  then have lt: "i < length x" by simp
  have "k = length x - Suc i" using Suc.hyps(2) by simp
  from Suc.hyps(1)[OF this] lt show ?case
    by (simp add: for_loop_step vec_get_def Cons_nth_drop_Suc[symmetric] add.assoc)
qed

lemma g13_func_eq:
  "g13_func x =
     Some (100 * ((\<Sum>a\<leftarrow>x. (a - 0.5) ^ 2 - cos (20 * pi * (a - 0.5))) + real (length x)))"
  using for_loop_sum[of 0 x "\<lambda>a. (a - 0.5) ^ 2 - cos (20 * pi * (a - 0.5))" 0]
  by (simp add: g13_func_def)

lemma g245_func_eq: "g245_func x = Some (\<Sum>a\<leftarrow>x. (a - 0.5) ^ 2)"
  using for_loop_sum[of 0 x "\<lambda>a. (a - 0.5) ^ 2" 0]
  by (simp add: g245_func_def)

lemma g6_func_eq: "g6_func x = Some (\<Sum>a\<leftarrow>x. a powr 0.1)"
  using for_loop_sum[of 0 x "\<lambda>a. a powr 0.1" 0]
  by (simp add: g6_func_def)

lemma g7_func_eq: "g7_func x = Some (9 / real (length x) * sum_list x)"
  using for_loop_sum[of 0 x "\<lambda>a. a" 0] by (simp add: g7_func_def)

lemma g_func_Some: "\<exists>v. g_func cfg x = Some v"
  by (simp add: g_func_def g13_func_eq g245_func_eq g6_func_eq g7_func_eq)

lemma sum_list_all_zero: "\<forall>a\<in>set x. a = (0::real) \<Longrightarrow> sum_list x = 0"
  by (induction x) simp_all

lemma wrap_sub_le: "b \<le> a \<Longrightarrow> a < (M::nat) \<Longrightarrow> (a + M - b) mod M = a - b"
proof -
  assume a: "b \<le> a" "a < M"
  from a(1) have eq: "a + M - b = (a - b) + M" by arith
  from a have lt: "a - b < M" by arith
  have "(a + M - b) mod M = ((a - b) + M) mod M" by (simp only: eq)
  also have "\<dots> = (a - b) mod M" by (rule mod_add_self2)
  also have "\<dots> = a - b" using lt by (rule mod_less)
  finally show ?thesis .
qed

lemma size_sub_le: "b \<le> a \<Longrightarrow> a < 2 ^ 64 \<Longrightarrow> size_sub a b = a - b"
  unfolding size_sub_def by (rule wrap_sub_le)

lemma unat_size_bound: "unat (w :: size_type) < 2 ^ 64"
  using unsigned_less[of w] by simp

lemma uint_le_7_cases:
  fixes p :: uint
  assumes "p \<le> 7"
  shows "p = 0 \<or> p = 1 \<or> p = 2 \<or> p = 3 \<or> p = 4 \<or> p = 5 \<or> p = 6 \<or> p = 7"
  using assms unfolding word_unat_eq_iff word_le_nat_alt by simp arith

section \<open>Construction\<close>

text \<open>
  Claim C4.  The constructor throws \<^verbatim>\<open>std::invalid_argument\<close> exactly when \<open>prob_id\<close> is 0
  or greater than 7, or \<open>fdim < 2\<close>, or \<open>fdim\<close> or \<open>dim\<close> exceeds the maximum of
  \<^verbatim>\<open>size_type\<close> divided by 3, or \<open>dim \<le> fdim\<close>; for all other arguments it succeeds and
  the object holds the four arguments.
\<close>

theorem dtlz_new_spec:
  "dtlz_new prob_id dim' fdim alpha =
     (if prob_id = 0 \<or> 7 < prob_id \<or> fdim < 2 \<or> size_type_max div 3 < fdim
         \<or> size_type_max div 3 < dim' \<or> dim' \<le> fdim
      then Inl InvalidArgument
      else Inr \<lparr>m_prob_id = prob_id, m_alpha = alpha, m_dim = dim', m_fdim = fdim\<rparr>)"
  by (simp add: dtlz_new_def)

text \<open>The bound on both sizes, and the constructor at and around its limits.\<close>

lemma size_type_max_div_3: "size_type_max div 3 = 6148914691236517205"
  by (simp add: size_type_max_def)

lemma dtlz_new_examples:
  "dtlz_new 1 7 3 100 = Inr \<lparr>m_prob_id = 1, m_alpha = 100, m_dim = 7, m_fdim = 3\<rparr>"
  "dtlz_new 0 7 3 100 = Inl InvalidArgument"
  "dtlz_new 8 7 3 100 = Inl InvalidArgument"
  "dtlz_new 1 7 1 100 = Inl InvalidArgument"
  "dtlz_new 1 3 3 100 = Inl InvalidArgument"
  "dtlz_new 1 6148914691236517205 2 100 =
     Inr \<lparr>m_prob_id = 1, m_alpha = 100, m_dim = 6148914691236517205, m_fdim = 2\<rparr>"
  "dtlz_new 1 6148914691236517206 2 100 = Inl InvalidArgument"
  by (simp_all add: dtlz_new_def size_type_max_def)

section \<open>The distance function of DTLZ7\<close>

text \<open>
  Claim C2.  For problem 7 and a non-empty vector \<open>x_M\<close> of distance components, \<open>g\<close> returns
  \<open>(9 / |x_M|) * \<Sum> x\<^sub>i\<close>, with no offset \<open>+ 1\<close>; it is 0 when every entry of \<open>x_M\<close> is 0.
\<close>

theorem g_func_dtlz7:
  assumes "m_prob_id cfg = 7" and "x_M \<noteq> []"
  shows "g_func cfg x_M = Some ((9 / real (length x_M)) * sum_list x_M)
       \<and> ((\<forall>a\<in>set x_M. a = 0) \<longrightarrow> g_func cfg x_M = Some 0)"
  using assms by (simp add: g_func_def g7_func_eq sum_list_all_zero)

theorem g_func_dtlz7_witness:
  "m_prob_id \<lparr>m_prob_id = 7, m_alpha = 100, m_dim = 7, m_fdim = 3\<rparr> = 7
   \<and> [0, 0, 0, 0, 0] \<noteq> ([] :: real list)
   \<and> g_func \<lparr>m_prob_id = 7, m_alpha = 100, m_dim = 7, m_fdim = 3\<rparr> [0, 0, 0, 0, 0] = Some 0
   \<and> g_func \<lparr>m_prob_id = 7, m_alpha = 100, m_dim = 7, m_fdim = 3\<rparr> [1, 1 / 2] = Some (27 / 4)"
  using g_func_dtlz7[of "\<lparr>m_prob_id = 7, m_alpha = 100, m_dim = 7, m_fdim = 3\<rparr>" "[0, 0, 0, 0, 0]"]
    g_func_dtlz7[of "\<lparr>m_prob_id = 7, m_alpha = 100, m_dim = 7, m_fdim = 3\<rparr>" "[1, 1 / 2]"]
  by simp

section \<open>The convergence metric of a decision vector\<close>

text \<open>The loop collecting \<open>x_M\<close> only reads below \<open>x.size()\<close>: it yields a suffix of \<open>x\<close>.\<close>

lemma for_loop_collect:
  "for_loop i (length x) (\<lambda>i xm. Option.bind (vec_get x i) (\<lambda>xi. Some (xm @ [xi]))) acc
     = Some (acc @ drop i x)"
proof (induction "length x - i" arbitrary: i acc)
  case 0
  then show ?case by (simp add: for_loop_done)
next
  case (Suc k)
  then have lt: "i < length x" by simp
  have "k = length x - Suc i" using Suc.hyps(2) by simp
  from Suc.hyps(1)[OF this] lt show ?case
    by (simp add: for_loop_step vec_get_def Cons_nth_drop_Suc[symmetric])
qed

lemma collect_x_M_eq: "collect_x_M n x = Some (drop (size_sub n 1) x)"
  using for_loop_collect[of "size_sub n 1" x "[]"] by (simp add: collect_x_M_def)

lemma convergence_metric_eq:
  "convergence_metric cfg x = g_func cfg (drop (size_sub (unat (m_fdim cfg)) 1) x)"
  using g_func_Some[of cfg "drop (size_sub (unat (m_fdim cfg)) 1) x"]
  by (auto simp add: convergence_metric_def collect_x_M_eq)

lemma dtlz_new_InrD:
  assumes "dtlz_new prob_id dim' fdim alpha = Inr cfg"
  shows "cfg = \<lparr>m_prob_id = prob_id, m_alpha = alpha, m_dim = dim', m_fdim = fdim\<rparr>"
    and "prob_id \<noteq> 0" and "prob_id \<le> 7" and "2 \<le> fdim" and "fdim < dim'"
  using assms by (auto simp add: dtlz_new_def split: if_splits)

lemma fdim_sub_1:
  assumes "2 \<le> (fdim :: size_type)"
  shows "size_sub (unat fdim) 1 = unat fdim - 1" and "2 \<le> unat fdim"
proof -
  show 2: "2 \<le> unat fdim" using assms by (simp add: word_le_nat_alt)
  then have "1 \<le> unat fdim" by simp
  then show "size_sub (unat fdim) 1 = unat fdim - 1"
    using unat_size_bound[of fdim] by (rule size_sub_le)
qed


text \<open>
  Claim C5.  For a constructed problem, \<^verbatim>\<open>p_distance(x)\<close> throws
  \<^verbatim>\<open>std::invalid_argument\<close> if and only if the length of \<open>x\<close> differs from \<open>dim\<close>;
  otherwise it returns \<open>g\<close>, the dispatcher \<open>g_func\<close> used by the fitness kernels, applied
  to the trailing \<open>dim - fdim + 1\<close> entries of \<open>x\<close>.
\<close>

theorem p_distance_spec:
  assumes "dtlz_new prob_id dim' fdim alpha = Inr cfg"
  shows "((p_distance cfg x = Inl InvalidArgument) = (length x \<noteq> unat dim'))
       \<and> (length x = unat dim' \<longrightarrow>
            (\<exists>v. g_func cfg (drop (length x - (unat dim' - unat fdim + 1)) x) = Some v
                \<and> p_distance cfg x = Inr (Some v)))"
proof (intro conjI impI)
  note c = dtlz_new_InrD[OF assms]
  have cfg: "m_dim cfg = dim'" "m_fdim cfg = fdim" using c(1) by simp_all
  show "(p_distance cfg x = Inl InvalidArgument) = (length x \<noteq> unat dim')"
    by (simp add: p_distance_def cfg)
  assume len: "length x = unat dim'"
  have lt: "unat fdim < unat dim'" using c(5) by (simp add: word_less_nat_alt)
  have idx: "length x - (unat dim' - unat fdim + 1) = unat fdim - 1"
    using lt len fdim_sub_1(2)[OF c(4)] by arith
  have cm: "convergence_metric cfg x = g_func cfg (drop (unat fdim - 1) x)"
    unfolding convergence_metric_eq cfg fdim_sub_1(1)[OF c(4)] ..
  obtain v where v: "g_func cfg (drop (unat fdim - 1) x) = Some v"
    using g_func_Some by blast
  have "p_distance cfg x = Inr (Some v)"
    using len v by (simp add: p_distance_def cfg cm)
  then show "\<exists>v. g_func cfg (drop (length x - (unat dim' - unat fdim + 1)) x) = Some v
              \<and> p_distance cfg x = Inr (Some v)"
    unfolding idx using v by blast
qed

theorem p_distance_spec_witness:
  "dtlz_new 2 3 2 100 = Inr \<lparr>m_prob_id = 2, m_alpha = 100, m_dim = 3, m_fdim = 2\<rparr>
   \<and> p_distance \<lparr>m_prob_id = 2, m_alpha = 100, m_dim = 3, m_fdim = 2\<rparr> [1 / 2, 0] = Inl InvalidArgument
   \<and> p_distance \<lparr>m_prob_id = 2, m_alpha = 100, m_dim = 3, m_fdim = 2\<rparr> [1 / 2, 1 / 2, 0] = Inr (Some (1 / 4))"
proof -
  have h: "dtlz_new 2 3 2 100 = Inr \<lparr>m_prob_id = 2, m_alpha = 100, m_dim = 3, m_fdim = 2\<rparr>"
    by (simp add: dtlz_new_def size_type_max_def)
  have g: "g_func \<lparr>m_prob_id = 2, m_alpha = 100, m_dim = 3, m_fdim = 2\<rparr> [1 / 2, 0] = Some (1 / 4)"
    by (simp add: g_func_def g245_func_eq power2_eq_square)
  have short: "p_distance \<lparr>m_prob_id = 2, m_alpha = 100, m_dim = 3, m_fdim = 2\<rparr> [1 / 2, 0]
      = Inl InvalidArgument"
    using p_distance_spec[OF h, of "[1 / 2, 0]"] by simp
  have "p_distance \<lparr>m_prob_id = 2, m_alpha = 100, m_dim = 3, m_fdim = 2\<rparr> [1 / 2, 1 / 2, 0]
      = Inr (Some (1 / 4))"
    using p_distance_spec[OF h, of "[1 / 2, 1 / 2, 0]"] g by auto
  with h short show ?thesis by simp
qed

section \<open>The convergence metric of a population\<close>

lemma p_distance_loop_step:
  "i < length pop \<Longrightarrow> p_distance cfg (pop ! i) = Inr (Some d) \<Longrightarrow>
     p_distance_loop cfg pop i c = p_distance_loop cfg pop (Suc i) (c + d)"
  by (subst p_distance_loop.simps) (simp add: vec_get_def)

lemma p_distance_loop_done: "length pop \<le> i \<Longrightarrow> p_distance_loop cfg pop i c = Inr (Some c)"
  by (subst p_distance_loop.simps) simp

lemma p_distance_loop_values:
  "map (p_distance cfg) (drop i pop) = map (\<lambda>v. Inr (Some v)) vs \<Longrightarrow>
     p_distance_loop cfg pop i c = Inr (Some (c + sum_list vs))"
proof (induction vs arbitrary: i c)
  case Nil
  then show ?case by (simp add: p_distance_loop_done)
next
  case (Cons v vs)
  then have lt: "i < length pop" by (cases "i < length pop") auto
  then have d: "drop i pop = pop ! i # drop (Suc i) pop" by (simp add: Cons_nth_drop_Suc)
  with Cons.prems have v: "p_distance cfg (pop ! i) = Inr (Some v)"
    and rest: "map (p_distance cfg) (drop (Suc i) pop) = map (\<lambda>v. Inr (Some v)) vs"
    by simp_all
  show ?case
    using Cons.IH[OF rest, of "c + v"] by (simp add: p_distance_loop_step[OF lt v] add.assoc)
qed

lemma p_distance_values:
  "\<forall>x\<in>set pop. length x = unat (m_dim cfg) \<Longrightarrow>
     \<exists>vs. map (p_distance cfg) pop = map (\<lambda>v. Inr (Some v)) vs"
proof (induction pop)
  case Nil
  then show ?case by simp
next
  case (Cons x pop)
  then obtain vs where vs: "map (p_distance cfg) pop = map (\<lambda>v. Inr (Some v)) vs" by auto
  obtain v where "convergence_metric cfg x = Some v"
    using g_func_Some by (auto simp add: convergence_metric_eq)
  then have "p_distance cfg x = Inr (Some v)" using Cons.prems by (simp add: p_distance_def)
  then have "map (p_distance cfg) (x # pop) = map (\<lambda>v. Inr (Some v)) (v # vs)"
    using vs by simp
  then show ?case by blast
qed


text \<open>
  Claim C7.  For a non-empty population whose decision vectors all have length \<open>dim\<close>, every
  member has a per-vector metric \<open>v\<^sub>i\<close>, and the metric of the population is their
  arithmetic mean: the sum of the \<open>v\<^sub>i\<close> divided by the size of the population.
\<close>

theorem p_distance_pop_mean:
  assumes "pop \<noteq> []" and "\<forall>x\<in>set pop. length x = unat (m_dim cfg)"
  shows "\<exists>vs. map (p_distance cfg) pop = map (\<lambda>v. Inr (Some v)) vs
             \<and> p_distance_pop cfg pop = Inr (Some (sum_list vs / real (length pop)))"
proof -
  from p_distance_values[OF assms(2)] obtain vs where
    vs: "map (p_distance cfg) pop = map (\<lambda>v. Inr (Some v)) vs" by blast
  then have "p_distance_loop cfg pop 0 0 = Inr (Some (0 + sum_list vs))"
    using p_distance_loop_values[of cfg 0 pop vs 0] by simp
  then have "p_distance_pop cfg pop = Inr (Some (sum_list vs / real (length pop)))"
    using assms(1) by (simp add: p_distance_pop_def div_size_def)
  with vs show ?thesis by blast
qed

theorem p_distance_pop_mean_witness:
  "[[1 / 2, 1 / 2, 1 / 2], [1 / 2, 1 / 2, 0]] \<noteq> ([] :: population)
   \<and> length [1 / 2, 1 / 2, 1 / 2 :: real]
        = unat (m_dim \<lparr>m_prob_id = 2, m_alpha = 100, m_dim = 3, m_fdim = 2\<rparr>)
   \<and> length [1 / 2, 1 / 2, 0 :: real]
        = unat (m_dim \<lparr>m_prob_id = 2, m_alpha = 100, m_dim = 3, m_fdim = 2\<rparr>)
   \<and> p_distance_pop \<lparr>m_prob_id = 2, m_alpha = 100, m_dim = 3, m_fdim = 2\<rparr>
        [[1 / 2, 1 / 2, 1 / 2], [1 / 2, 1 / 2, 0]] = Inr (Some (1 / 8))"
proof -
  let ?c = "\<lparr>m_prob_id = 2, m_alpha = 100, m_dim = 3, m_fdim = 2\<rparr>"
  let ?pop = "[[1 / 2, 1 / 2, 1 / 2], [1 / 2, 1 / 2, 0 :: real]]"
  have h: "\<forall>x\<in>set ?pop. length x = unat (m_dim ?c)" by simp
  have pd: "map (p_distance ?c) ?pop = [Inr (Some 0), Inr (Some (1 / 4))]"
    by (simp add: p_distance_def convergence_metric_eq size_sub_def g_func_def g245_func_eq power2_eq_square)
  from p_distance_pop_mean[of ?pop ?c, OF _ h] obtain vs where
    vs: "map (p_distance ?c) ?pop = map (\<lambda>v. Inr (Some v)) vs"
    and m: "p_distance_pop ?c ?pop = Inr (Some (sum_list vs / real (length ?pop)))"
    by blast
  from vs pd have "vs = [0, 1 / 4]" by (auto simp add: map_eq_Cons_conv)
  with m have "p_distance_pop ?c ?pop = Inr (Some (1 / 8))" by simp
  then show ?thesis by simp
qed


text \<open>
  Claim C1, as the code has it.  \<^verbatim>\<open>p_distance(pop)\<close> has no guard for an empty population:
  for every problem, the metric of the empty population does not fail with an error.
\<close>

theorem p_distance_pop_empty:
  "p_distance_pop cfg [] \<noteq> Inl e"
  by (simp add: p_distance_pop_def p_distance_loop_done div_size_def)


text \<open>
  Claim C1 as stated, that the metric of an empty population fails with an error, does not
  hold: for the default problem (DTLZ1, \<open>dim = 7\<close>, \<open>fdim = 3\<close>) the result is not the
  exception.
\<close>

theorem p_distance_pop_empty_no_error:
  "dtlz_new 1 7 3 100 = Inr \<lparr>m_prob_id = 1, m_alpha = 100, m_dim = 7, m_fdim = 3\<rparr>
   \<and> p_distance_pop \<lparr>m_prob_id = 1, m_alpha = 100, m_dim = 7, m_fdim = 3\<rparr> []
       \<noteq> Inl InvalidArgument"
  by (simp add: dtlz_new_def size_type_max_def p_distance_pop_def p_distance_loop_done
      div_size_def)

section \<open>The dispatcher of the distance functions\<close>

text \<open>
  Claim C9.  For every problem that passed construction, so that \<open>prob_id\<close> is one of
  \<open>1, \<dots>, 7\<close>, and every vector \<open>x\<close>, the switch of \<open>g_func\<close> enters one of its four cases and
  the result is that of the kernel selected by \<open>prob_id\<close>: the statement \<^verbatim>\<open>return -1\<close>
  after the switch is never reached.
\<close>

theorem g_func_kernel:
  assumes "dtlz_new prob_id dim' fdim alpha = Inr cfg"
  shows "prob_id = 6 \<and> g_func cfg x = g6_func x
       \<or> prob_id = 7 \<and> g_func cfg x = g7_func x
       \<or> (prob_id = 1 \<or> prob_id = 3) \<and> g_func cfg x = g13_func x
       \<or> (prob_id = 2 \<or> prob_id = 4 \<or> prob_id = 5) \<and> g_func cfg x = g245_func x"
proof -
  note c = dtlz_new_InrD[OF assms]
  have id: "m_prob_id cfg = prob_id" using c(1) by simp
  from uint_le_7_cases[OF c(3)] c(2)
  consider "prob_id = 1" | "prob_id = 2" | "prob_id = 3" | "prob_id = 4"
    | "prob_id = 5" | "prob_id = 6" | "prob_id = 7" by blast
  then show ?thesis
    by cases (simp_all add: g_func_def id)
qed

theorem g_func_kernel_witness:
  "dtlz_new 7 10 2 100 = Inr \<lparr>m_prob_id = 7, m_alpha = 100, m_dim = 10, m_fdim = 2\<rparr>
   \<and> g_func \<lparr>m_prob_id = 7, m_alpha = 100, m_dim = 10, m_fdim = 2\<rparr> [1, 0, 0] = g7_func [1, 0, 0]
   \<and> g_func \<lparr>m_prob_id = 7, m_alpha = 100, m_dim = 10, m_fdim = 2\<rparr> [1, 0, 0] = Some 3"
proof -
  have h: "dtlz_new 7 10 2 100 = Inr \<lparr>m_prob_id = 7, m_alpha = 100, m_dim = 10, m_fdim = 2\<rparr>"
    by (simp add: dtlz_new_def size_type_max_def)
  have "g7_func [1, 0, 0] = Some 3" by (simp add: g7_func_eq)
  then show ?thesis using h g_func_kernel[OF h, of "[1, 0, 0]"] by simp
qed

text \<open>
  Without construction the statement after the switch is reached: a record with
  \<open>prob_id = 0\<close>, which the constructor refuses, gives the sentinel.
\<close>

lemma g_func_fall_through:
  "g_func \<lparr>m_prob_id = 0, m_alpha = 100, m_dim = 7, m_fdim = 3\<rparr> x = Some (- 1)"
  by (simp add: g_func_def)

section \<open>The shape exponent\<close>

text \<open>Only \<open>f4_objfun_impl\<close> reads \<open>m_alpha\<close>.\<close>

lemma g_func_alpha: "g_func (cfg\<lparr>m_alpha := a\<rparr>) = g_func cfg"
  by (simp add: g_func_def fun_eq_iff)

lemma h7_func_alpha: "h7_func (cfg\<lparr>m_alpha := a\<rparr>) = h7_func cfg"
  by (simp add: h7_func_def fun_eq_iff)

lemma f1_objfun_impl_alpha: "f1_objfun_impl (cfg\<lparr>m_alpha := a\<rparr>) x = f1_objfun_impl cfg x"
  unfolding f1_objfun_impl_def g_func_alpha by simp

lemma f23_objfun_impl_alpha: "f23_objfun_impl (cfg\<lparr>m_alpha := a\<rparr>) x = f23_objfun_impl cfg x"
  unfolding f23_objfun_impl_def g_func_alpha by simp

lemma f56_objfun_impl_alpha: "f56_objfun_impl (cfg\<lparr>m_alpha := a\<rparr>) x = f56_objfun_impl cfg x"
  unfolding f56_objfun_impl_def g_func_alpha by simp

lemma f7_objfun_impl_alpha: "f7_objfun_impl (cfg\<lparr>m_alpha := a\<rparr>) x = f7_objfun_impl cfg x"
  unfolding f7_objfun_impl_def g_func_alpha h7_func_alpha by simp

lemma fitness_alpha:
  "m_prob_id cfg \<noteq> 4 \<Longrightarrow> fitness (cfg\<lparr>m_alpha := a\<rparr>) x = fitness cfg x"
  by (simp add: fitness_def f1_objfun_impl_alpha f23_objfun_impl_alpha f56_objfun_impl_alpha
      f7_objfun_impl_alpha)


text \<open>
  Claim C8.  Two problems constructed from the same \<open>prob_id \<noteq> 4\<close>, \<open>dim\<close> and \<open>fdim\<close>
  but different \<open>alpha\<close> have the same fitness at every decision vector.
\<close>

theorem fitness_ignores_alpha:
  assumes "dtlz_new prob_id dim' fdim alpha = Inr cfg"
    and "dtlz_new prob_id dim' fdim alpha' = Inr cfg'"
    and "prob_id \<noteq> 4"
  shows "fitness cfg x = fitness cfg' x"
proof -
  have c: "cfg = \<lparr>m_prob_id = prob_id, m_alpha = alpha, m_dim = dim', m_fdim = fdim\<rparr>"
    by (rule dtlz_new_InrD(1)[OF assms(1)])
  have c': "cfg' = \<lparr>m_prob_id = prob_id, m_alpha = alpha', m_dim = dim', m_fdim = fdim\<rparr>"
    by (rule dtlz_new_InrD(1)[OF assms(2)])
  have "cfg' = cfg\<lparr>m_alpha := alpha'\<rparr>" by (simp add: c c')
  moreover have "m_prob_id cfg \<noteq> 4" using assms(3) by (simp add: c)
  ultimately show ?thesis by (simp add: fitness_alpha)
qed

theorem fitness_ignores_alpha_witness:
  "dtlz_new 1 3 2 100 = Inr \<lparr>m_prob_id = 1, m_alpha = 100, m_dim = 3, m_fdim = 2\<rparr>
   \<and> dtlz_new 1 3 2 7 = Inr \<lparr>m_prob_id = 1, m_alpha = 7, m_dim = 3, m_fdim = 2\<rparr>
   \<and> (1 :: uint) \<noteq> 4
   \<and> fitness \<lparr>m_prob_id = 1, m_alpha = 100, m_dim = 3, m_fdim = 2\<rparr> [1 / 2, 1 / 2, 1 / 2]
       = fitness \<lparr>m_prob_id = 1, m_alpha = 7, m_dim = 3, m_fdim = 2\<rparr> [1 / 2, 1 / 2, 1 / 2]"
proof -
  have h: "dtlz_new 1 3 2 100 = Inr \<lparr>m_prob_id = 1, m_alpha = 100, m_dim = 3, m_fdim = 2\<rparr>"
    by (simp add: dtlz_new_def size_type_max_def)
  have h': "dtlz_new 1 3 2 7 = Inr \<lparr>m_prob_id = 1, m_alpha = 7, m_dim = 3, m_fdim = 2\<rparr>"
    by (simp add: dtlz_new_def size_type_max_def)
  have n: "(1 :: uint) \<noteq> 4" by simp
  show ?thesis
    using h h' n fitness_ignores_alpha[OF h h' n, of "[1 / 2, 1 / 2, 1 / 2]"] by simp
qed

text \<open>
  For DTLZ4 the exponent does count: at \<open>x = [0.5, 0.5, 0.5]\<close> (\<open>dim = 3\<close>, \<open>fdim = 2\<close>) the
  objectives are \<open>cos (0.5\<^sup>\<alpha> \<pi>/2)\<close> and \<open>sin (0.5\<^sup>\<alpha> \<pi>/2)\<close>, which differ for
  \<open>\<alpha> = 1\<close> and \<open>\<alpha> = 2\<close>.
\<close>

lemma f4_half:
  "f4_objfun_impl \<lparr>m_prob_id = 4, m_alpha = a, m_dim = 3, m_fdim = 2\<rparr> [1 / 2, 1 / 2, 1 / 2]
     = Some [cos ((1 / 2) ^ unat a * pi_half), sin ((1 / 2) ^ unat a * pi_half)]"
proof -
  have r: "replicate 2 (0::real) = [0, 0]" by (simp add: numeral_2_eq_2)
  show ?thesis
    by (simp add: f4_objfun_impl_def Let_def r collect_x_M_eq size_sub_def g_func_def g245_func_eq
        vec_get_def vec_set_def for_loop_step for_loop_done)
qed

lemma fitness_dtlz4_depends_on_alpha:
  "fitness \<lparr>m_prob_id = 4, m_alpha = 1, m_dim = 3, m_fdim = 2\<rparr> [1 / 2, 1 / 2, 1 / 2]
     \<noteq> fitness \<lparr>m_prob_id = 4, m_alpha = 2, m_dim = 3, m_fdim = 2\<rparr> [1 / 2, 1 / 2, 1 / 2]"
proof -
  have "sin (pi / 8) < sin (pi / 4)"
    by (subst sin_mono_less_eq) (use pi_gt_zero in simp_all)
  then have "sin ((1 / 2) ^ unat (2 :: uint) * pi_half) \<noteq> sin ((1 / 2) ^ unat (1 :: uint) * pi_half)"
    by (simp add: pi_half_def power2_eq_square)
  then show ?thesis by (simp add: fitness_def f4_half)
qed

section \<open>A concrete evaluation\<close>

lemma f1_A: "f1_objfun_impl \<lparr>m_prob_id = 1, m_alpha = 100, m_dim = 3, m_fdim = 2\<rparr> [1 / 2, 1 / 2, 1 / 2] = Some [1 / 4, 1 / 4]"
proof -
  have r: "replicate 2 (0::real) = [0, 0]" by (simp add: numeral_2_eq_2)
  show ?thesis
    by (simp add: f1_objfun_impl_def r collect_x_M_eq size_sub_def g_func_def g13_func_eq
        vec_get_def vec_set_def for_loop_step for_loop_done)
qed


text \<open>
  Claim C6.  The problem constructed with \<open>prob_id = 1\<close>, \<open>dim = 3\<close>, \<open>fdim = 2\<close> (and the
  default \<open>alpha = 100\<close>) maps the decision vector \<open>[0.5, 0.5, 0.5]\<close> to the objective vector
  \<open>[0.25, 0.25]\<close>, and its convergence metric there is 0.  Both are exact (also in IEEE
  arithmetic: every intermediate value is a dyadic fraction), hence within any tolerance.
\<close>

theorem scenario_A:
  "dtlz_new 1 3 2 100 = Inr \<lparr>m_prob_id = 1, m_alpha = 100, m_dim = 3, m_fdim = 2\<rparr>
   \<and> fitness \<lparr>m_prob_id = 1, m_alpha = 100, m_dim = 3, m_fdim = 2\<rparr> [1 / 2, 1 / 2, 1 / 2]
       = Some [1 / 4, 1 / 4]
   \<and> p_distance \<lparr>m_prob_id = 1, m_alpha = 100, m_dim = 3, m_fdim = 2\<rparr> [1 / 2, 1 / 2, 1 / 2]
       = Inr (Some 0)"
  by (simp add: dtlz_new_def size_type_max_def fitness_def f1_A p_distance_def
      convergence_metric_eq size_sub_def g_func_def g13_func_eq)

section \<open>The objective function of DTLZ7\<close>

text \<open>
  A rule for loops with an invariant that may mention the loop variable, a loop summing over a
  prefix of a vector, and the loop of \<open>f7_objfun_impl\<close> that copies the position components.
\<close>

lemma for_loop_rule:
  assumes "I i s"
    and "\<And>j t. i \<le> j \<Longrightarrow> j < n \<Longrightarrow> I j t \<Longrightarrow> \<exists>t'. body j t = Some t' \<and> I (Suc j) t'"
  shows "\<exists>t. for_loop i n body s = Some t \<and> I (max i n) t"
  using assms
proof (induction "n - i" arbitrary: i s)
  case 0
  then show ?case by (simp add: for_loop_done max_def)
next
  case (Suc k)
  then have lt: "i < n" by simp
  from Suc.prems(2)[OF le_refl lt Suc.prems(1)] obtain t' where
    t': "body i s = Some t'" "I (Suc i) t'" by blast
  have k: "k = n - Suc i" using Suc.hyps(2) by simp
  have "\<exists>t. for_loop (Suc i) n body t' = Some t \<and> I (max (Suc i) n) t"
  proof (rule Suc.hyps(1)[OF k t'(2)])
    fix j t assume "Suc i \<le> j" "j < n" "I j t"
    then show "\<exists>t'. body j t = Some t' \<and> I (Suc j) t'"
      using Suc.prems(2)[of j t] by simp
  qed
  then show ?case using lt t' by (simp add: for_loop_step max_def)
qed

lemma for_loop_sum_upto:
  "m \<le> length f \<Longrightarrow>
   for_loop i m (\<lambda>i y. Option.bind (vec_get f i) (\<lambda>a. Some (y + F a))) y
     = Some (y + (\<Sum>k = i..<m. F (f ! k)))"
proof (induction "m - i" arbitrary: i y)
  case 0
  then show ?case by (simp add: for_loop_done)
next
  case (Suc d)
  then have lt: "i < m" by simp
  have d: "d = m - Suc i" using Suc.hyps(2) by simp
  from Suc.hyps(1)[OF d Suc.prems, of "y + F (f ! i)"] lt Suc.prems show ?case
    by (simp add: for_loop_step vec_get_def sum.atLeast_Suc_lessThan add.assoc)
qed

lemma copy_loop:
  assumes "m \<le> length x" and "m \<le> length f"
  shows "\<exists>f'. for_loop 0 m (\<lambda>i f. Option.bind (vec_get x i) (\<lambda>xi. vec_set f i xi)) f = Some f'
            \<and> length f' = length f \<and> (\<forall>k<m. f' ! k = x ! k)"
proof -
  let ?I = "\<lambda>j t. j \<le> m \<and> length t = length f \<and> (\<forall>k<j. t ! k = x ! k)"
  have "\<exists>t. for_loop 0 m (\<lambda>i f. Option.bind (vec_get x i) (\<lambda>xi. vec_set f i xi)) f = Some t
          \<and> ?I (max 0 m) t"
  proof (rule for_loop_rule[where I = ?I])
    show "?I 0 f" by simp
  next
    fix j t assume j: "0 \<le> j" "j < m" and I: "?I j t"
    have "Option.bind (vec_get x j) (\<lambda>xi. vec_set t j xi) = Some (t[j := x ! j])"
      using j I assms by (simp add: vec_get_def vec_set_def)
    moreover have "?I (Suc j) (t[j := x ! j])"
      using j I assms by (auto simp add: nth_list_update less_Suc_eq)
    ultimately show "\<exists>t'. Option.bind (vec_get x j) (\<lambda>xi. vec_set t j xi) = Some t' \<and> ?I (Suc j) t'"
      by blast
  qed
  then show ?thesis by auto
qed


text \<open>
  Claim C3.  For a problem constructed with \<open>prob_id = 7\<close> and a decision vector \<open>x\<close> of
  length \<open>dim\<close>, \<open>fitness\<close> returns a vector \<open>f\<close> of length \<open>fdim\<close> whose first
  \<open>fdim - 1\<close> entries are \<open>x[0], \<dots>, x[fdim - 2]\<close> unchanged and whose last entry is
  \<open>(1 + g') * h\<close>, where \<open>g' = 1 + g(x_M)\<close>, \<open>x_M\<close> being the entries of \<open>x\<close> from index
  \<open>fdim - 1\<close> on, and \<open>h = fdim - \<Sum>\<^sub>i\<^sub><\<^sub>f\<^sub>d\<^sub>i\<^sub>m\<^sub>-\<^sub>1 (f[i] / (1 + g')) * (1 + sin (3\<pi> f[i]))\<close>, the sum
  leaving out the last entry of \<open>f\<close>.
\<close>

theorem fitness_dtlz7:
  assumes "dtlz_new 7 dim' fdim alpha = Inr cfg" and "length x = unat dim'"
  shows "\<exists>g g' f.
           g_func cfg (drop (unat fdim - 1) x) = Some g \<and> g' = 1 + g
         \<and> fitness cfg x = Some f \<and> length f = unat fdim
         \<and> (\<forall>i<unat fdim - 1. f ! i = x ! i)
         \<and> f ! (unat fdim - 1) =
             (1 + g') * (real (unat fdim)
                - (\<Sum>i<unat fdim - 1. (f ! i / (1 + g')) * (1 + sin (3 * pi * f ! i))))"
proof -
  note c = dtlz_new_InrD[OF assms(1)]
  let ?n = "unat fdim"
  have cfg: "m_prob_id cfg = 7" "m_fdim cfg = fdim" using c(1) by simp_all
  have n2: "2 \<le> ?n" and sub: "size_sub ?n 1 = ?n - 1" using fdim_sub_1[OF c(4)] by simp_all
  have nx: "?n < length x" using c(5) assms(2) by (simp add: word_less_nat_alt)
  obtain g where g: "g_func cfg (drop (?n - 1) x) = Some g" using g_func_Some by blast
  have "?n - 1 \<le> length x" and "?n - 1 \<le> length (replicate ?n (0::real))"
    using nx by simp_all
  from copy_loop[OF this] obtain f1 where
    f1: "for_loop 0 (?n - 1) (\<lambda>i f. Option.bind (vec_get x i) (\<lambda>xi. vec_set f i xi))
           (replicate ?n 0) = Some f1"
    and len1': "length f1 = length (replicate ?n (0::real))"
    and pos1: "\<forall>k<?n - 1. f1 ! k = x ! k"
    by blast
  have len1: "length f1 = ?n" using len1' by simp
  define y where
    "y = (\<Sum>k = 0..<?n - 1. (f1 ! k / (1 + (1 + g))) * (1 + sin (3 * pi * f1 ! k)))"
  have "?n - 1 \<le> length f1" using len1 by simp
  then have "for_loop 0 (?n - 1)
      (\<lambda>i y. Option.bind (vec_get f1 i)
          (\<lambda>fi. Some (y + (fi / (1 + (1 + g))) * (1 + sin (3 * pi * fi))))) 0 = Some (0 + y)"
    unfolding y_def by (rule for_loop_sum_upto)
  then have h: "h7_func cfg f1 (1 + g) = Some (real ?n - y)"
    unfolding h7_func_def len1 sub cfg by simp
  have vs: "\<And>v. vec_set f1 (?n - 1) v = Some (f1[?n - 1 := v])"
    using n2 by (simp add: vec_set_def len1)
  define f where "f = f1[?n - 1 := (1 + (1 + g)) * (real ?n - y)]"
  have "f7_objfun_impl cfg x = Some f"
    unfolding f7_objfun_impl_def Let_def cfg length_replicate collect_x_M_eq sub g
      Option.bind.simps f1 len1 h vs f_def ..
  then have fit: "fitness cfg x = Some f" by (simp add: fitness_def cfg)
  have len: "length f = ?n" by (simp add: f_def len1)
  have pos: "\<forall>i<?n - 1. f ! i = x ! i" using pos1 by (simp add: f_def)
  have same: "\<And>k. k < ?n - 1 \<Longrightarrow> f ! k = f1 ! k" by (simp add: f_def)
  have y': "y = (\<Sum>i<?n - 1. (f ! i / (1 + (1 + g))) * (1 + sin (3 * pi * f ! i)))"
    unfolding y_def atLeast0LessThan by (rule sum.cong) (simp_all add: same)
  have last: "f ! (?n - 1) = (1 + (1 + g)) * (real ?n - y)"
    using n2 by (simp add: f_def len1)
  show ?thesis
    using g fit len pos last unfolding y' by blast
qed

theorem fitness_dtlz7_witness:
  "dtlz_new 7 3 2 100 = Inr \<lparr>m_prob_id = 7, m_alpha = 100, m_dim = 3, m_fdim = 2\<rparr>
   \<and> length [1, 0, 0 :: real] = unat (3 :: size_type)
   \<and> fitness \<lparr>m_prob_id = 7, m_alpha = 100, m_dim = 3, m_fdim = 2\<rparr> [1, 0, 0] = Some [1, 3]"
proof -
  let ?c = "\<lparr>m_prob_id = 7, m_alpha = 100, m_dim = 3, m_fdim = 2\<rparr>"
  have h: "dtlz_new 7 3 2 100 = Inr ?c" by (simp add: dtlz_new_def size_type_max_def)
  have l: "length [1, 0, 0 :: real] = unat (3 :: size_type)" by simp
  have gv: "g_func ?c (drop (unat (2 :: size_type) - 1) [1, 0, 0]) = Some 0"
    by (simp add: g_func_def g7_func_eq)
  from fitness_dtlz7[OF h l] obtain g g' f where
    g: "g_func ?c (drop (unat (2 :: size_type) - 1) [1, 0, 0]) = Some g" and g': "g' = 1 + g"
    and fit: "fitness ?c [1, 0, 0] = Some f" and len: "length f = unat (2 :: size_type)"
    and pos: "\<forall>i<unat (2 :: size_type) - 1. f ! i = [1, 0, 0] ! i"
    and last: "f ! (unat (2 :: size_type) - 1) =
             (1 + g') * (real (unat (2 :: size_type))
                - (\<Sum>i<unat (2 :: size_type) - 1. (f ! i / (1 + g')) * (1 + sin (3 * pi * f ! i))))"
    by blast
  have g0: "g' = 1" using g gv g' by simp
  have len2: "length f = Suc (Suc 0)" using len by simp
  then obtain a b where ab: "f = [a, b]"
    by (metis Suc_length_conv length_0_conv)
  have a: "a = 1" using pos ab by simp
  have "b = (1 + 1) * (2 - (1 / (1 + 1)) * (1 + sin (3 * pi * 1)))"
    using last ab a g0 by simp
  then have "b = 3" by simp
  with a show ?thesis using h fit ab by simp
qed

section \<open>Index accesses stay within bounds\<close>

text \<open>
  In the model a read or a write out of range makes the whole computation \<open>None\<close>, so a result
  \<open>Some f\<close> says that every access on the way was within bounds.  The lemmas below give, for
  each loop shape of the kernels, that it succeeds and keeps the length of \<open>f\<close>.
\<close>

lemma vec_get_ok: "i < length v \<Longrightarrow> vec_get v i = Some (v ! i)"
  by (simp add: vec_get_def)

lemma vec_set_ok: "i < length v \<Longrightarrow> vec_set v i a = Some (v[i := a])"
  by (simp add: vec_set_def)

lemma bind_len:
  assumes "\<exists>a. m = Some a \<and> length a = n"
    and "\<And>a. length a = n \<Longrightarrow> \<exists>b. k a = Some b \<and> R b"
  shows "\<exists>b. Option.bind m k = Some b \<and> R b"
  using assms by auto

lemma for_loop_len:
  assumes "length s = n"
    and "\<And>j t. i \<le> j \<Longrightarrow> j < m \<Longrightarrow> length t = n \<Longrightarrow> \<exists>t'. body j t = Some t' \<and> length t' = n"
  shows "\<exists>t. for_loop i m body s = Some t \<and> length t = n"
  using for_loop_rule[where I = "\<lambda>j t. length t = n" and i = i and s = s and n = m and body = body]
    assms by blast

lemma mul_loop_ok:
  fixes f y :: "real list"
  assumes "k < length f" and "m \<le> length y"
  shows "\<exists>f'. for_loop 0 m
            (\<lambda>j f. Option.bind (vec_get f k) (\<lambda>fk. Option.bind (vec_get y j)
               (\<lambda>a. vec_set f k (H fk a)))) f = Some f'
           \<and> length f' = length f"
proof (rule for_loop_len)
  show "length f = length f" ..
next
  fix j and t :: "real list" assume "j < m" "length t = length f"
  then show "\<exists>t'. Option.bind (vec_get t k) (\<lambda>fk. Option.bind (vec_get y j)
               (\<lambda>a. vec_set t k (H fk a))) = Some t' \<and> length t' = length f"
    using assms by (simp add: vec_get_ok vec_set_ok)
qed

lemma shape_loop_ok:
  fixes f y :: "real list"
  assumes "m \<le> length f" and "length f \<le> length y" and "length f < 2 ^ 64"
  shows "\<exists>f'. for_loop 1 m
            (\<lambda>i f. Option.bind (vec_set f i c)
               (\<lambda>f. Option.bind
                  (for_loop 0 (size_sub (length f) (i + 1))
                     (\<lambda>j f. Option.bind (vec_get f i) (\<lambda>fi. Option.bind (vec_get y j)
                        (\<lambda>a. vec_set f i (H fi a)))) f)
                  (\<lambda>f. Option.bind (vec_get f i) (\<lambda>fi.
                     Option.bind (vec_get y (size_sub (length f) (i + 1)))
                       (\<lambda>a. vec_set f i (K fi a)))))) f = Some f'
           \<and> length f' = length f"
proof (rule for_loop_len)
  show "length f = length f" ..
next
  fix i and t :: "real list" assume i: "1 \<le> i" "i < m" and t: "length t = length f"
  have sub: "size_sub (length f) (i + 1) = length f - (i + 1)"
    using i assms by (intro size_sub_le) simp_all
  have ti: "i < length t" using i t assms by simp
  let ?t1 = "t[i := c]"
  have len1: "length ?t1 = length f" using t by simp
  have "length f - (i + 1) \<le> length y" using assms by simp
  moreover have "i < length ?t1" using ti by simp
  ultimately obtain t2 where
    t2: "for_loop 0 (length f - (i + 1))
           (\<lambda>j f. Option.bind (vec_get f i) (\<lambda>fi. Option.bind (vec_get y j)
              (\<lambda>a. vec_set f i (H fi a)))) ?t1 = Some t2"
    and len2': "length t2 = length ?t1"
    using mul_loop_ok[of i ?t1 "length f - (i + 1)" y H] by blast
  have len2: "length t2 = length f" using len2' len1 by simp
  have i2: "i < length t2" using ti len2 t by simp
  have yk: "length f - (i + 1) < length y" using i assms by simp
  show "\<exists>t'. Option.bind (vec_set t i c)
               (\<lambda>f. Option.bind
                  (for_loop 0 (size_sub (length f) (i + 1))
                     (\<lambda>j f. Option.bind (vec_get f i) (\<lambda>fi. Option.bind (vec_get y j)
                        (\<lambda>a. vec_set f i (H fi a)))) f)
                  (\<lambda>f. Option.bind (vec_get f i) (\<lambda>fi.
                     Option.bind (vec_get y (size_sub (length f) (i + 1)))
                       (\<lambda>a. vec_set f i (K fi a))))) = Some t' \<and> length t' = length f"
    unfolding vec_set_ok[OF ti] Option.bind.simps len1 sub t2 len2 vec_get_ok[OF i2]
      vec_get_ok[OF yk] vec_set_ok[OF i2]
    by (simp add: len2)
qed

lemma f1_objfun_impl_ok:
  assumes n: "unat (m_fdim cfg) = n" and n2: "2 \<le> n" and nx: "n < length x"
  shows "\<exists>f. f1_objfun_impl cfg x = Some f \<and> length f = n"
proof -
  have nb: "n < 2 ^ 64" using unat_size_bound[of "m_fdim cfg"] n by simp
  have sub: "size_sub n 1 = n - 1" using n2 nb by (intro size_sub_le) simp_all
  obtain g where g: "g_func cfg (drop (n - 1) x) = Some g" using g_func_Some by blast
  have "0 < length x" using n2 nx by arith
  then have x0: "vec_get x 0 = Some (x ! 0)" by (rule vec_get_ok)
  show ?thesis
    unfolding f1_objfun_impl_def Let_def n length_replicate collect_x_M_eq sub g
      Option.bind.simps x0
    apply (rule bind_len[where n = n])
    subgoal using n2 by (simp add: vec_set_ok)
    apply (rule bind_len[where n = n])
    subgoal for f using mul_loop_ok[of 0 f "size_sub (length f) 1" x] n2 nx sub by simp
    apply (rule bind_len[where n = n])
    subgoal for f0 f using shape_loop_ok[of "size_sub (length f) 1" f x] n2 nx nb sub by simp
    subgoal for f0 f1 f using n2 sub by (simp add: vec_set_ok)
    done
qed


lemma f23_objfun_impl_ok:
  assumes n: "unat (m_fdim cfg) = n" and n2: "2 \<le> n" and nx: "n < length x"
  shows "\<exists>f. f23_objfun_impl cfg x = Some f \<and> length f = n"
proof -
  have nb: "n < 2 ^ 64" using unat_size_bound[of "m_fdim cfg"] n by simp
  have sub: "size_sub n 1 = n - 1" using n2 nb by (intro size_sub_le) simp_all
  obtain g where g: "g_func cfg (drop (n - 1) x) = Some g" using g_func_Some by blast
  have "0 < length x" using n2 nx by arith
  then have x0: "vec_get x 0 = Some (x ! 0)" by (rule vec_get_ok)
  show ?thesis
    unfolding f23_objfun_impl_def Let_def n length_replicate collect_x_M_eq sub g
      Option.bind.simps x0
    apply (rule bind_len[where n = n])
    subgoal using n2 by (simp add: vec_set_ok)
    apply (rule bind_len[where n = n])
    subgoal for f using mul_loop_ok[of 0 f "size_sub (length f) 1" x] n2 nx sub by simp
    apply (rule bind_len[where n = n])
    subgoal for f0 f using shape_loop_ok[of "size_sub (length f) 1" f x] n2 nx nb sub by simp
    subgoal for f0 f1 f using n2 sub by (simp add: vec_set_ok)
    done
qed

lemma f4_objfun_impl_ok:
  assumes n: "unat (m_fdim cfg) = n" and n2: "2 \<le> n" and nx: "n < length x"
  shows "\<exists>f. f4_objfun_impl cfg x = Some f \<and> length f = n"
proof -
  have nb: "n < 2 ^ 64" using unat_size_bound[of "m_fdim cfg"] n by simp
  have sub: "size_sub n 1 = n - 1" using n2 nb by (intro size_sub_le) simp_all
  obtain g where g: "g_func cfg (drop (n - 1) x) = Some g" using g_func_Some by blast
  have "0 < length x" using n2 nx by arith
  then have x0: "vec_get x 0 = Some (x ! 0)" by (rule vec_get_ok)
  show ?thesis
    unfolding f4_objfun_impl_def Let_def n length_replicate collect_x_M_eq sub g
      Option.bind.simps x0
    apply (rule bind_len[where n = n])
    subgoal using n2 by (simp add: vec_set_ok)
    apply (rule bind_len[where n = n])
    subgoal for f using mul_loop_ok[of 0 f "size_sub (length f) 1" x] n2 nx sub by simp
    apply (rule bind_len[where n = n])
    subgoal for f0 f using shape_loop_ok[of "size_sub (length f) 1" f x] n2 nx nb sub by simp
    subgoal for f0 f1 f using n2 sub by (simp add: vec_set_ok)
    done
qed

lemma set_loop_ok:
  fixes f y :: "real list"
  assumes "m \<le> length y" and "m \<le> length f"
  shows "\<exists>f'. for_loop i m (\<lambda>i f. Option.bind (vec_get y i) (\<lambda>a. vec_set f i (H a))) f = Some f'
           \<and> length f' = length f"
proof (rule for_loop_len)
  show "length f = length f" ..
next
  fix j and t :: "real list" assume "j < m" "length t = length f"
  then show "\<exists>t'. Option.bind (vec_get y j) (\<lambda>a. vec_set t j (H a)) = Some t'
      \<and> length t' = length f"
    using assms by (simp add: vec_get_ok vec_set_ok)
qed

lemma bind_ex:
  assumes "\<exists>a. m = Some a" and "\<And>a. \<exists>b. k a = Some b \<and> R b"
  shows "\<exists>b. Option.bind m k = Some b \<and> R b"
  using assms by auto

lemma h7_func_ok:
  assumes "1 \<le> length f" and "length f < 2 ^ 64"
  shows "\<exists>h. h7_func cfg f g = Some h"
proof -
  have sub: "size_sub (length f) 1 = length f - 1" using assms by (rule size_sub_le)
  have "length f - 1 \<le> length f" by simp
  then show ?thesis
    unfolding h7_func_def sub
    using for_loop_sum_upto[of "length f - 1" f 0 "\<lambda>a. (a / (1 + g)) * (1 + sin (3 * pi * a))" 0]
    by simp
qed

lemma f56_objfun_impl_ok:
  assumes n: "unat (m_fdim cfg) = n" and n2: "2 \<le> n" and nx: "n < length x"
  shows "\<exists>f. f56_objfun_impl cfg x = Some f \<and> length f = n"
proof -
  have nb: "n < 2 ^ 64" using unat_size_bound[of "m_fdim cfg"] n by simp
  have sub: "size_sub n 1 = n - 1" using n2 nb by (intro size_sub_le) simp_all
  obtain g where g: "g_func cfg (drop (n - 1) x) = Some g" using g_func_Some by blast
  have "0 < length x" using n2 nx by arith
  then have x0: "vec_get x 0 = Some (x ! 0)" by (rule vec_get_ok)
  have "0 < length (replicate n (0::real))" using n2 by simp
  then have th0: "vec_set (replicate n 0) 0 (x ! 0) = Some ((replicate n (0::real))[0 := x ! 0])"
    by (rule vec_set_ok)
  show ?thesis
    unfolding f56_objfun_impl_def Let_def n length_replicate collect_x_M_eq sub g
      Option.bind.simps x0 th0
    apply (rule bind_len[where n = n])
    subgoal using set_loop_ok[of n x "(replicate n 0)[0 := x ! 0]" 1] nx by simp
    apply (rule bind_len[where n = n])
    subgoal using n2 by (simp add: vec_set_ok)
    apply (rule bind_len[where n = n])
    subgoal for theta f using mul_loop_ok[of 0 f "size_sub (length f) 1" theta] n2 sub by simp
    apply (rule bind_len[where n = n])
    subgoal for theta f0 f
      using shape_loop_ok[of "size_sub (length f) 1" f theta] n2 nb sub by simp
    subgoal for theta f0 f1 f using n2 sub by (simp add: vec_get_ok vec_set_ok)
    done
qed

lemma f7_objfun_impl_ok:
  assumes n: "unat (m_fdim cfg) = n" and n2: "2 \<le> n" and nx: "n < length x"
  shows "\<exists>f. f7_objfun_impl cfg x = Some f \<and> length f = n"
proof -
  have nb: "n < 2 ^ 64" using unat_size_bound[of "m_fdim cfg"] n by simp
  have sub: "size_sub n 1 = n - 1" using n2 nb by (intro size_sub_le) simp_all
  obtain g where g: "g_func cfg (drop (n - 1) x) = Some g" using g_func_Some by blast
  show ?thesis
    unfolding f7_objfun_impl_def Let_def n length_replicate collect_x_M_eq sub g
      Option.bind.simps
    apply (rule bind_len[where n = n])
    subgoal using set_loop_ok[of "n - 1" x "replicate n 0" 0 "\<lambda>a. a"] nx by simp
    apply (rule bind_ex)
    subgoal for f using h7_func_ok[of f cfg "1 + g"] n2 nb by simp
    subgoal for f h using n2 sub by (simp add: vec_set_ok)
    done
qed


text \<open>
  Claim C10.  If the decision vector has length \<open>dim\<close> and \<open>2 \<le> fdim < dim\<close>, then each of
  the five shape kernels returns a vector of length \<open>fdim\<close> and the convergence metric returns a
  value, no index access being out of range; so does \<open>fitness\<close> for every problem id that
  the constructor admits.
\<close>

theorem kernels_in_bounds:
  assumes "length x = unat (m_dim cfg)" and "2 \<le> m_fdim cfg" and "m_fdim cfg < m_dim cfg"
  shows "(\<exists>f. f1_objfun_impl cfg x = Some f \<and> length f = unat (m_fdim cfg))
       \<and> (\<exists>f. f23_objfun_impl cfg x = Some f \<and> length f = unat (m_fdim cfg))
       \<and> (\<exists>f. f4_objfun_impl cfg x = Some f \<and> length f = unat (m_fdim cfg))
       \<and> (\<exists>f. f56_objfun_impl cfg x = Some f \<and> length f = unat (m_fdim cfg))
       \<and> (\<exists>f. f7_objfun_impl cfg x = Some f \<and> length f = unat (m_fdim cfg))
       \<and> (\<exists>c. convergence_metric cfg x = Some c)
       \<and> (m_prob_id cfg \<noteq> 0 \<and> m_prob_id cfg \<le> 7 \<longrightarrow>
            (\<exists>f. fitness cfg x = Some f \<and> length f = unat (m_fdim cfg)))"
proof -
  have n2: "2 \<le> unat (m_fdim cfg)" using assms(2) by (simp add: word_le_nat_alt)
  have nx: "unat (m_fdim cfg) < length x" using assms(1,3) by (simp add: word_less_nat_alt)
  note k1 = f1_objfun_impl_ok[OF refl n2 nx]
  note k23 = f23_objfun_impl_ok[OF refl n2 nx]
  note k4 = f4_objfun_impl_ok[OF refl n2 nx]
  note k56 = f56_objfun_impl_ok[OF refl n2 nx]
  note k7 = f7_objfun_impl_ok[OF refl n2 nx]
  have cm: "\<exists>c. convergence_metric cfg x = Some c"
    unfolding convergence_metric_eq by (rule g_func_Some)
  have fit: "\<exists>f. fitness cfg x = Some f \<and> length f = unat (m_fdim cfg)"
    if "m_prob_id cfg \<noteq> 0" "m_prob_id cfg \<le> 7"
  proof -
    from uint_le_7_cases[OF that(2)] that(1)
    consider "m_prob_id cfg = 1" | "m_prob_id cfg = 2" | "m_prob_id cfg = 3"
      | "m_prob_id cfg = 4" | "m_prob_id cfg = 5" | "m_prob_id cfg = 6" | "m_prob_id cfg = 7"
      by blast
    then show ?thesis
    proof cases
      case 1 then show ?thesis using k1 by (simp add: fitness_def)
    next
      case 2 then show ?thesis using k23 by (simp add: fitness_def)
    next
      case 3 then show ?thesis using k23 by (simp add: fitness_def)
    next
      case 4 then show ?thesis using k4 by (simp add: fitness_def)
    next
      case 5 then show ?thesis using k56 by (simp add: fitness_def)
    next
      case 6 then show ?thesis using k56 by (simp add: fitness_def)
    next
      case 7 then show ?thesis using k7 by (simp add: fitness_def)
    qed
  qed
  show ?thesis using k1 k23 k4 k56 k7 cm fit by blast
qed

theorem kernels_in_bounds_witness:
  "length [1 / 2, 1 / 2, 1 / 2, 1 / 2 :: real]
     = unat (m_dim \<lparr>m_prob_id = 5, m_alpha = 100, m_dim = 4, m_fdim = 3\<rparr>)
   \<and> 2 \<le> m_fdim \<lparr>m_prob_id = 5, m_alpha = 100, m_dim = 4, m_fdim = 3\<rparr>
   \<and> m_fdim \<lparr>m_prob_id = 5, m_alpha = 100, m_dim = 4, m_fdim = 3\<rparr>
       < m_dim \<lparr>m_prob_id = 5, m_alpha = 100, m_dim = 4, m_fdim = 3\<rparr>
   \<and> (\<exists>f. fitness \<lparr>m_prob_id = 5, m_alpha = 100, m_dim = 4, m_fdim = 3\<rparr>
          [1 / 2, 1 / 2, 1 / 2, 1 / 2] = Some f \<and> length f = 3)
   \<and> (\<exists>c. convergence_metric \<lparr>m_prob_id = 5, m_alpha = 100, m_dim = 4, m_fdim = 3\<rparr>
          [1 / 2, 1 / 2, 1 / 2, 1 / 2] = Some c)"
  using kernels_in_bounds[of "[1 / 2, 1 / 2, 1 / 2, 1 / 2]"
      "\<lparr>m_prob_id = 5, m_alpha = 100, m_dim = 4, m_fdim = 3\<rparr>"]
  by simp


text \<open>
  Without the precondition the accesses do leave the vector: a decision vector of length 1
  makes the first product loop of DTLZ1 (with \<open>fdim = 3\<close>) read \<open>x[1]\<close>.
\<close>

lemma fitness_short_vector:
  "fitness \<lparr>m_prob_id = 1, m_alpha = 100, m_dim = 7, m_fdim = 3\<rparr> [1 / 2] = None"
proof -
  have r: "replicate 3 (0::real) = [0, 0, 0]" by (simp add: numeral_3_eq_3)
  show ?thesis
    by (simp add: fitness_def f1_objfun_impl_def r collect_x_M_eq size_sub_def g_func_def
        g13_func_eq vec_get_def vec_set_def for_loop_step for_loop_done)
qed


end
